theory Spec2Isabelle
  imports Main "HOL-Library.Sublist"
begin

section \<open>Text\<close>

text \<open>
  A Python \<open>str\<close> is a sequence of Unicode code points. The content of the file, the
  file path and the printed lines are modelled as lists of code points (\<open>nat\<close>), so that
  \<open>length\<close> counts what Python's \<open>len\<close> counts and \<open>\s\<close> can be given its Unicode
  meaning. \<open>str\<close> embeds an ASCII literal.
\<close>

type_synonym pystr = "nat list"

definition str :: "string \<Rightarrow> pystr" where
  "str s = map of_char s"

text \<open>
  \<open>'useCallback' not in content\<close> (line 12) is Python's substring test; \<open>py_in sub s\<close>
  is \<open>sub in s\<close>.
\<close>

fun py_in :: "pystr \<Rightarrow> pystr \<Rightarrow> bool" where
  "py_in sub [] = (sub = [])"
| "py_in sub (c # s) = (prefix sub (c # s) \<or> py_in sub s)"

section \<open>The two regular expressions of step 1\<close>

text \<open>
  The regular expressions of lines 15 and 20 are sequences of three kinds of item: a
  literal text, \<open>\s*\<close> and \<open>\s+\<close>. The whole expression is group 1.

  \<open>is_space\<close> is the class \<open>\s\<close> of a \<open>str\<close> pattern in Python 3: the code points for
  which \<open>str.isspace\<close> holds.
\<close>

datatype item = Lit pystr | Space_star | Space_plus

definition is_space :: "nat \<Rightarrow> bool" where
  "is_space c \<longleftrightarrow>
     (9 \<le> c \<and> c \<le> 13) \<or> (28 \<le> c \<and> c \<le> 32) \<or> c = 133 \<or> c = 160 \<or> c = 5760 \<or>
     (8192 \<le> c \<and> c \<le> 8202) \<or> c = 8232 \<or> c = 8233 \<or> c = 8239 \<or> c = 8287 \<or> c = 12288"

text \<open>
  \<open>match_items p s\<close> is \<open>re.match\<close> of the expression \<open>p\<close> at the start of \<open>s\<close>: the
  number of code points matched, or \<open>None\<close>. The quantifiers are greedy and backtrack:
  \<open>\s*\<close> first tries to take one more white space character and falls back to the rest
  of the expression only when that fails.
\<close>

fun match_items :: "item list \<Rightarrow> pystr \<Rightarrow> nat option" where
  "match_items [] s = Some 0"
| "match_items (Lit l # p) s =
     (if prefix l s
      then map_option (\<lambda>n. length l + n) (match_items p (drop (length l) s))
      else None)"
| "match_items (Space_star # p) [] = match_items p []"
| "match_items (Space_star # p) (c # s) =
     (if is_space c
      then (case match_items (Space_star # p) s of
              Some n \<Rightarrow> Some (Suc n)
            | None \<Rightarrow> match_items p (c # s))
      else match_items p (c # s))"
| "match_items (Space_plus # p) [] = None"
| "match_items (Space_plus # p) (c # s) =
     (if is_space c then map_option Suc (match_items (Space_star # p) s) else None)"

text \<open>Line 15: \<open>(import\s+\{\s*useEffect,\s*useState\s*\})\<close>.\<close>

definition pattern1 :: "item list" where
  "pattern1 =
     [Lit (str ''import''), Space_plus, Lit (str ''{''), Space_star,
      Lit (str ''useEffect,''), Space_star, Lit (str ''useState''), Space_star,
      Lit (str ''}'')]"

text \<open>Line 20: \<open>(import\s+\{\s*useState,\s*useEffect\s*\})\<close>.\<close>

definition pattern2 :: "item list" where
  "pattern2 =
     [Lit (str ''import''), Space_plus, Lit (str ''{''), Space_star,
      Lit (str ''useState,''), Space_star, Lit (str ''useEffect''), Space_star,
      Lit (str ''}'')]"

text \<open>
  The replacement template of lines 16 and 21 is \<open>\1, useCallback}\<close>: group 1, which is
  the whole match, followed by this text.
\<close>

definition inserted :: pystr where
  "inserted = str '', useCallback}''"

text \<open>
  \<open>re_sub p s\<close> is \<open>re.sub(p, r'\1, useCallback}', s)\<close>: the text is scanned from the left;
  where the expression matches, the match is copied, \<open>inserted\<close> is appended and the scan
  goes on behind the match; elsewhere one code point is copied. Both expressions start
  with the literal \<open>import\<close>, so that no match is empty; the rule of \<open>re.sub\<close> for
  empty matches is not modelled, and a match of length 0 counts as none.
\<close>

function re_sub :: "item list \<Rightarrow> pystr \<Rightarrow> pystr" where
  "re_sub p [] = []"
| "re_sub p (c # s) =
     (case match_items p (c # s) of
        Some (Suc n) \<Rightarrow> c # take n s @ inserted @ re_sub p (drop n s)
      | _ \<Rightarrow> c # re_sub p s)"
  by pat_completeness auto
termination
  by (relation "measure (\<lambda>(p, s). length s)") auto

section \<open>The file system, the output and the process\<close>

text \<open>
  The program reads one file, may write it back and prints lines. The world it runs in
  is a record: \<open>files w p\<close> is what \<open>open(p, 'r')\<close> followed by \<open>f.read()\<close> returns, or
  \<open>None\<close> when one of the two raises (no such file, no permission, undecodable
  bytes); \<open>writable w p\<close> says whether \<open>open(p, 'w')\<close> followed by \<open>f.write\<close> succeeds;
  where it does not, \<open>opens w p\<close> says whether \<open>open(p, 'w')\<close> alone succeeds, which
  empties the file before \<open>f.write\<close> raises; \<open>stdout\<close> holds the printed lines and
  \<open>ops\<close> the file operations attempted so far, both in order. Printing is taken to
  succeed.
\<close>

datatype file_op = Open_read pystr | Open_write pystr | Write pystr pystr

record world =
  files :: "pystr \<rightharpoonup> pystr"
  writable :: "pystr \<Rightarrow> bool"
  opens :: "pystr \<Rightarrow> bool"
  stdout :: "pystr list"
  ops :: "file_op list"

datatype exn = Read_failure | Write_failure

definition print :: "pystr \<Rightarrow> world \<Rightarrow> world" where
  "print line w = w\<lparr>stdout := stdout w @ [line]\<rparr>"

text \<open>Lines 6 and 7: \<open>with open(filepath, 'r') as f: content = f.read()\<close>.\<close>

definition read_file :: "pystr \<Rightarrow> world \<Rightarrow> (exn + pystr) \<times> world" where
  "read_file filepath w =
     (let w' = w\<lparr>ops := ops w @ [Open_read filepath]\<rparr>
      in case files w filepath of
           None \<Rightarrow> (Inl Read_failure, w')
         | Some content \<Rightarrow> (Inr content, w'))"

text \<open>
  Lines 44 and 45: \<open>with open(filepath, 'w') as f: f.write(content)\<close>. When \<open>open\<close>
  raises, the file is as it was. When it succeeds, the file is empty from then on, and
  holds \<open>content\<close> once \<open>f.write\<close> has succeeded.
\<close>

definition write_file :: "pystr \<Rightarrow> pystr \<Rightarrow> world \<Rightarrow> (exn + unit) \<times> world" where
  "write_file filepath content w =
     (let w1 = w\<lparr>ops := ops w @ [Open_write filepath]\<rparr>
      in if \<not> writable w filepath \<and> \<not> opens w filepath
         then (Inl Write_failure, w1)
         else (let w2 = w1\<lparr>files := (files w1)(filepath \<mapsto> [])\<rparr>
               in if writable w filepath
                  then (Inr (), w2\<lparr>files := (files w2)(filepath \<mapsto> content),
                                    ops := ops w2 @ [Write filepath content]\<rparr>)
                  else (Inl Write_failure, w2)))"

text \<open>
  Lines 11 to 23, step 1: what \<open>content\<close> holds after the \<open>if\<close> block, from what it
  held before.
\<close>

definition add_import :: "pystr \<Rightarrow> pystr" where
  "add_import content =
     (if \<not> py_in (str ''useCallback'') content
      then re_sub pattern2 (re_sub pattern1 content)
      else content)"

text \<open>
  Lines 5 to 50. Lines 30 to 37 bind the local \<open>patterns\<close> to the two rules of step 2;
  no later line reads it, so it has no part in the model. The result is the returned
  \<open>content != original_content\<close>, or the exception that leaves the function.
\<close>

definition check_mark :: nat where
  "check_mark = 10003"

definition fix_react_hook_dependencies :: "pystr \<Rightarrow> world \<Rightarrow> (exn + bool) \<times> world" where
  "fix_react_hook_dependencies filepath w =
     (case read_file filepath w of
        (Inl e, w1) \<Rightarrow> (Inl e, w1)
      | (Inr original_content, w1) \<Rightarrow>
          (let content = add_import original_content;
               w2 = print (str ''File: '' @ filepath) w1
           in if content \<noteq> original_content
              then (case write_file filepath content w2 of
                      (Inl e, w3) \<Rightarrow> (Inl e, w3)
                    | (Inr _, w3) \<Rightarrow>
                        (Inr (content \<noteq> original_content),
                         print (str ''  '' @ [check_mark] @ str '' Fixed imports'') w3))
              else (Inr (content \<noteq> original_content),
                    print (str ''  - No import changes needed'') w2)))"

text \<open>
  Lines 52 to 59. The process ends by \<open>sys.exit\<close> with a status, or by an exception that
  nothing catches; the interpreter then prints the traceback and the status is 1.
\<close>

datatype outcome = Exit int | Uncaught exn

fun exit_status :: "outcome \<Rightarrow> int" where
  "exit_status (Exit n) = n"
| "exit_status (Uncaught e) = 1"

definition main :: "pystr list \<Rightarrow> world \<Rightarrow> outcome \<times> world" where
  "main argv w =
     (if length argv < 2
      then (Exit 1, print (str ''Usage: fix_react_hooks.py <file>'') w)
      else (case fix_react_hook_dependencies (argv ! 1) w of
              (Inl e, w') \<Rightarrow> (Uncaught e, w')
            | (Inr fixed, w') \<Rightarrow> (Exit (if fixed then 0 else 1), w')))"

section \<open>Text mode and the characters in the file\<close>






section \<open>Notions used to state the properties\<close>

text \<open>
  \<open>re_search p s\<close> is \<open>re.search(p, s) is not None\<close>: the expression matches at some
  position of \<open>s\<close>.
\<close>

fun re_search :: "item list \<Rightarrow> pystr \<Rightarrow> bool" where
  "re_search p [] = (match_items p [] \<noteq> None)"
| "re_search p (c # s) = (match_items p (c # s) \<noteq> None \<or> re_search p s)"

text \<open>\<open>py_join sep xs\<close> is \<open>sep.join(xs)\<close>.\<close>

fun py_join :: "pystr \<Rightarrow> pystr list \<Rightarrow> pystr" where
  "py_join sep [] = []"
| "py_join sep [x] = x"
| "py_join sep (x # y # ys) = x @ sep @ py_join sep (y # ys)"

text \<open>
  The operations that put content into a file, and those that can change a file at all:
  opening it for writing, which empties it, and writing into it.
\<close>

fun is_write :: "file_op \<Rightarrow> bool" where
  "is_write (Write p c) = True"
| "is_write (Open_read p) = False"
| "is_write (Open_write p) = False"

fun modifies :: "file_op \<Rightarrow> bool" where
  "modifies (Write p c) = True"
| "modifies (Open_write p) = True"
| "modifies (Open_read p) = False"

text \<open>
  The two import statements with white space at every place between their tokens: \<open>w1\<close>
  stands behind \<open>import\<close>, \<open>w2\<close> behind the opening brace, \<open>wc\<close> between the first
  name and the comma, \<open>w3\<close> behind the comma and \<open>w4\<close> before the closing brace.
\<close>

definition shape1 :: "pystr \<Rightarrow> pystr \<Rightarrow> pystr \<Rightarrow> pystr \<Rightarrow> pystr \<Rightarrow> pystr" where
  "shape1 w1 w2 wc w3 w4 =
     str ''import'' @ w1 @ str ''{'' @ w2 @ str ''useEffect'' @ wc @ str '','' @ w3 @
     str ''useState'' @ w4 @ str ''}''"

definition shape2 :: "pystr \<Rightarrow> pystr \<Rightarrow> pystr \<Rightarrow> pystr \<Rightarrow> pystr \<Rightarrow> pystr" where
  "shape2 w1 w2 wc w3 w4 =
     str ''import'' @ w1 @ str ''{'' @ w2 @ str ''useState'' @ wc @ str '','' @ w3 @
     str ''useEffect'' @ w4 @ str ''}''"

definition spaces :: "pystr \<Rightarrow> bool" where
  "spaces w = list_all is_space w"

text \<open>
  Worlds for the examples, nothing printed yet: one file, readable and writable; one file
  that can be read and not opened for writing; no file.
\<close>

definition one_file :: "pystr \<Rightarrow> pystr \<Rightarrow> world" where
  "one_file p c =
     \<lparr>files = [p \<mapsto> c], writable = (\<lambda>q. q = p), opens = (\<lambda>q. q = p), stdout = [],
      ops = []\<rparr>"

definition read_only_file :: "pystr \<Rightarrow> pystr \<Rightarrow> world" where
  "read_only_file p c =
     \<lparr>files = [p \<mapsto> c], writable = (\<lambda>q. False), opens = (\<lambda>q. False), stdout = [],
      ops = []\<rparr>"

definition no_file :: world where
  "no_file =
     \<lparr>files = Map.empty, writable = (\<lambda>q. False), opens = (\<lambda>q. False), stdout = [],
      ops = []\<rparr>"




text \<open>The names used in the examples, and a file that mentions the hook in a comment only.\<close>

definition ex_prog :: pystr where
  "ex_prog = str ''fix_react_hooks.py''"

definition ex_path :: pystr where
  "ex_path = str ''App.tsx''"

definition ex_commented :: pystr where
  "ex_commented = str ''// useCallback\<newline>import { useEffect, useState } from \"react\";''"


text \<open>
  A file with three imports: the first shape without any optional white space, the second
  shape over several lines, and the first shape again.
\<close>

definition ex_variants :: pystr where
  "ex_variants =
     str ''import {useEffect,useState} from \"a\";\<newline>import {\<newline>  useState,\<newline>  useEffect\<newline>} from \"b\";\<newline>import { useEffect, useState } from \"c\";\<newline>''"

definition ex_variants_patched :: pystr where
  "ex_variants_patched =
     str ''import {useEffect,useState}, useCallback} from \"a\";\<newline>import {\<newline>  useState,\<newline>  useEffect\<newline>}, useCallback} from \"b\";\<newline>import { useEffect, useState }, useCallback} from \"c\";\<newline>''"

section \<open>Running the program\<close>

text \<open>The six ways a run can go, each with the outcome and the world it leaves.\<close>

lemma main_no_argument:
  "length argv < 2 \<Longrightarrow>
   main argv w = (Exit 1, w\<lparr>stdout := stdout w @ [str ''Usage: fix_react_hooks.py <file>'']\<rparr>)"
  by (simp add: main_def print_def)

lemma main_unreadable:
  "files w p = None \<Longrightarrow>
   main (prog # p # rest) w = (Uncaught Read_failure, w\<lparr>ops := ops w @ [Open_read p]\<rparr>)"
  by (simp add: main_def fix_react_hook_dependencies_def read_file_def)

lemma main_unchanged:
  "files w p = Some c \<Longrightarrow> add_import c = c \<Longrightarrow>
   main (prog # p # rest) w =
     (Exit 1, w\<lparr>stdout := stdout w @ [str ''File: '' @ p, str ''  - No import changes needed''],
               ops := ops w @ [Open_read p]\<rparr>)"
  by (simp add: main_def fix_react_hook_dependencies_def read_file_def print_def)

lemma main_changed:
  "files w p = Some c \<Longrightarrow> add_import c \<noteq> c \<Longrightarrow> writable w p \<Longrightarrow>
   main (prog # p # rest) w =
     (Exit 0, w\<lparr>files := (files w)(p \<mapsto> add_import c),
               stdout := stdout w @
                 [str ''File: '' @ p, str ''  '' @ [check_mark] @ str '' Fixed imports''],
               ops := ops w @ [Open_read p, Open_write p, Write p (add_import c)]\<rparr>)"
  by (simp add: main_def fix_react_hook_dependencies_def read_file_def write_file_def
      print_def Let_def)

lemma main_open_fails:
  "files w p = Some c \<Longrightarrow> add_import c \<noteq> c \<Longrightarrow> \<not> writable w p \<Longrightarrow> \<not> opens w p \<Longrightarrow>
   main (prog # p # rest) w =
     (Uncaught Write_failure, w\<lparr>stdout := stdout w @ [str ''File: '' @ p],
               ops := ops w @ [Open_read p, Open_write p]\<rparr>)"
  by (simp add: main_def fix_react_hook_dependencies_def read_file_def write_file_def
      print_def Let_def)

lemma main_write_fails:
  "files w p = Some c \<Longrightarrow> add_import c \<noteq> c \<Longrightarrow> \<not> writable w p \<Longrightarrow> opens w p \<Longrightarrow>
   main (prog # p # rest) w =
     (Uncaught Write_failure, w\<lparr>files := (files w)(p \<mapsto> []),
               stdout := stdout w @ [str ''File: '' @ p],
               ops := ops w @ [Open_read p, Open_write p]\<rparr>)"
  by (simp add: main_def fix_react_hook_dependencies_def read_file_def write_file_def
      print_def Let_def)

section \<open>The substring test and the substitution\<close>

lemma py_in_sublist: "py_in sub s \<longleftrightarrow> sublist sub s"
  by (induction s) (auto simp: sublist_Cons_right)

lemma py_in_inserted: "py_in (str ''useCallback'') (a @ inserted @ b)"
proof -
  have "inserted = str '', '' @ str ''useCallback'' @ str ''}''"
    by (simp add: inserted_def str_def)
  then have "a @ inserted @ b = (a @ str '', '') @ str ''useCallback'' @ (str ''}'' @ b)"
    by simp
  then show ?thesis
    unfolding py_in_sublist sublist_def by blast
qed

text \<open>A substitution that changes the text leaves \<open>useCallback\<close> in it.\<close>

lemma re_sub_changed: "re_sub p s \<noteq> s \<Longrightarrow> py_in (str ''useCallback'') (re_sub p s)"
proof (induction p s rule: re_sub.induct)
  case (1 p)
  then show ?case by simp
next
  case (2 p c s)
  show ?case
  proof (cases "match_items p (c # s)")
    case None
    with 2 show ?thesis by auto
  next
    case (Some k)
    show ?thesis
    proof (cases k)
      case 0
      with Some 2 show ?thesis by auto
    next
      case (Suc n)
      have "re_sub p (c # s) = (c # take n s) @ inserted @ re_sub p (drop n s)"
        using Some Suc by simp
      then show ?thesis
        using py_in_inserted by simp
    qed
  qed
qed

lemma add_import_changed:
  assumes "add_import c \<noteq> c"
  shows "py_in (str ''useCallback'') (add_import c)"
proof -
  from assms have eq: "add_import c = re_sub pattern2 (re_sub pattern1 c)"
    by (auto simp: add_import_def split: if_splits)
  show ?thesis
  proof (cases "re_sub pattern2 (re_sub pattern1 c) = re_sub pattern1 c")
    case True
    with assms eq have "re_sub pattern1 c \<noteq> c" by simp
    then show ?thesis using re_sub_changed eq True by metis
  next
    case False
    then show ?thesis using re_sub_changed eq by metis
  qed
qed

lemma add_import_Nil: "add_import [] = []"
  by (simp add: add_import_def)

lemma add_import_present: "py_in (str ''useCallback'') c \<Longrightarrow> add_import c = c"
  by (simp add: add_import_def)

lemma add_import_idem: "add_import (add_import c) = add_import c"
proof (cases "add_import c = c")
  case True
  then show ?thesis by simp
next
  case False
  then have "py_in (str ''useCallback'') (add_import c)" by (rule add_import_changed)
  then show ?thesis by (rule add_import_present)
qed

text \<open>Where the expression matches nowhere, the substitution copies the text.\<close>

lemma re_sub_no_match: "\<not> re_search p s \<Longrightarrow> re_sub p s = s"
  by (induction s) auto

section \<open>The substitution only inserts\<close>

text \<open>
  The result of a substitution is the text cut into pieces, joined again with the
  inserted text between them.
\<close>

lemma py_join_Cons: "ps \<noteq> [] \<Longrightarrow> py_join sep (x # ps) = x @ sep @ py_join sep ps"
  by (cases ps) simp_all

lemma py_join_extend_first:
  "ps \<noteq> [] \<Longrightarrow> py_join sep ((c # hd ps) # tl ps) = c # py_join sep ps"
  by (cases ps; cases "hd ps"; cases "tl ps") auto

lemma concat_extend_first: "ps \<noteq> [] \<Longrightarrow> concat ((c # hd ps) # tl ps) = c # concat ps"
  by (cases ps) simp_all



section \<open>What the expressions match\<close>

lemma match_lit_append:
  "match_items (Lit l # p) (l @ s) = map_option (\<lambda>n. length l + n) (match_items p s)"
  by simp

text \<open>
  In front of a literal that starts with no white space, a run of white space is taken
  whole by \<open>\s*\<close> and by \<open>\s+\<close>: backtracking changes nothing.
\<close>

lemma match_star_lit:
  assumes "spaces w" and "l \<noteq> []" and "\<not> is_space (hd l)"
    and "s = [] \<or> \<not> is_space (hd s)"
  shows "match_items (Space_star # Lit l # q) (w @ s)
    = map_option (\<lambda>m. length w + m) (match_items (Lit l # q) s)"
  using assms(1)
proof (induction w)
  case Nil
  show ?case using assms(4) by (cases s) (auto simp: option.map_ident)
next
  case (Cons x w)
  then have x: "is_space x" and w: "spaces w" by (simp_all add: spaces_def)
  from x assms(2,3) have np: "\<not> prefix l (x # w @ s)"
    by (cases l) auto
  show ?case
  proof (cases "match_items (Lit l # q) s")
    case None
    with Cons.IH [OF w] x np show ?thesis by simp
  next
    case (Some m)
    with Cons.IH [OF w] x show ?thesis by simp
  qed
qed

lemma match_plus_lit:
  assumes "spaces w" and "w \<noteq> []" and "l \<noteq> []" and "\<not> is_space (hd l)"
    and "s = [] \<or> \<not> is_space (hd s)"
  shows "match_items (Space_plus # Lit l # q) (w @ s)
    = map_option (\<lambda>m. length w + m) (match_items (Lit l # q) s)"
proof -
  from assms(2) obtain x w' where w: "w = x # w'" by (cases w) auto
  with assms(1) have x: "is_space x" and w': "spaces w'" by (simp_all add: spaces_def)
  from match_star_lit [OF w' assms(3,4,5), of q] x show ?thesis
    by (simp add: w option.map_comp comp_def)
qed

text \<open>
  The expression \<open>import\s+\{\s*A,\s*B\s*\}\<close> on a text of the same form with white
  space \<open>wc\<close> between \<open>A\<close> and the comma: it matches the whole form when \<open>wc\<close> is
  empty and nothing otherwise.
\<close>

lemma import_shape_match:
  assumes "spaces w1" "w1 \<noteq> []" "spaces w2" "spaces wc" "spaces w3" "spaces w4"
    and "a \<noteq> []" "\<not> is_space (hd a)" "b \<noteq> []" "\<not> is_space (hd b)"
  shows "match_items
      [Lit (str ''import''), Space_plus, Lit (str ''{''), Space_star, Lit (a @ str '',''),
       Space_star, Lit b, Space_star, Lit (str ''}'')]
      (str ''import'' @ w1 @ str ''{'' @ w2 @ a @ wc @ str '','' @ w3 @ b @ w4 @ str ''}'' @ rest)
    = (if wc = []
       then Some (length (str ''import'' @ w1 @ str ''{'' @ w2 @ a @ wc @ str '','' @ w3 @ b @ w4 @ str ''}''))
       else None)"
proof -
  let ?X = "a @ wc @ str '','' @ w3 @ b @ w4 @ str ''}'' @ rest"
  let ?q = "[Space_star, Lit b, Space_star, Lit (str ''}'')]"
  have brace: "str ''}'' \<noteq> []" "\<not> is_space (hd (str ''}''))"
    "str ''{'' \<noteq> []" "\<not> is_space (hd (str ''{''))" "\<not> is_space (hd (str '',''))"
    by (simp_all add: str_def is_space_def)
  have X: "?X = [] \<or> \<not> is_space (hd ?X)"
    using assms(7,8) by (cases a) auto
  have ac: "a @ str '','' \<noteq> []" "\<not> is_space (hd (a @ str '',''))"
    using assms(7,8) by (cases a; simp)+
  define r where "r = match_items (Lit (a @ str '','') # ?q) ?X"
  have front: "match_items
      [Lit (str ''import''), Space_plus, Lit (str ''{''), Space_star, Lit (a @ str '',''),
       Space_star, Lit b, Space_star, Lit (str ''}'')]
      (str ''import'' @ w1 @ str ''{'' @ w2 @ ?X)
    = map_option (\<lambda>m. 6 + (length w1 + (1 + (length w2 + m)))) r"
  proof -
    have s2: "match_items (Space_star # Lit (a @ str '','') # ?q) (w2 @ ?X)
        = map_option (\<lambda>m. length w2 + m) r"
      unfolding r_def by (rule match_star_lit [OF assms(3) ac X])
    have l1: "match_items (Lit (str ''{'') # Space_star # Lit (a @ str '','') # ?q)
          (str ''{'' @ w2 @ ?X)
        = map_option (\<lambda>m. 1 + (length w2 + m)) r"
      by (simp only: match_lit_append s2) (simp add: str_def option.map_comp comp_def)
    have s1: "match_items (Space_plus # Lit (str ''{'') # Space_star # Lit (a @ str '','') # ?q)
          (w1 @ str ''{'' @ w2 @ ?X)
        = map_option (\<lambda>m. length w1 + (1 + (length w2 + m))) r"
      using match_plus_lit [OF assms(1,2) brace(3,4), of "str ''{'' @ w2 @ ?X"
          "Space_star # Lit (a @ str '','') # ?q"] brace(4)
      by (simp only: l1) (simp add: str_def option.map_comp comp_def)
    have len: "length (str ''import'') = 6" by (simp add: str_def)
    show ?thesis
      by (simp only: match_lit_append s1) (simp add: len option.map_comp comp_def)
  qed
  show ?thesis
  proof (cases "wc = []")
    case True
    have e1: "match_items [Lit (str ''}'')] (str ''}'' @ rest) = Some 1"
      by (simp add: str_def)
    have x4: "str ''}'' @ rest = [] \<or> \<not> is_space (hd (str ''}'' @ rest))"
      by (simp add: str_def is_space_def)
    have e2: "match_items [Space_star, Lit (str ''}'')] (w4 @ str ''}'' @ rest)
        = Some (length w4 + 1)"
      using match_star_lit [OF assms(6) brace(1,2) x4, of "[]"]
      by (simp add: e1 del: match_items.simps)
    have e3: "match_items (Lit b # [Space_star, Lit (str ''}'')]) (b @ w4 @ str ''}'' @ rest)
        = Some (length b + (length w4 + 1))"
      by (simp only: match_lit_append e2) simp
    have xb: "b @ w4 @ str ''}'' @ rest = [] \<or> \<not> is_space (hd (b @ w4 @ str ''}'' @ rest))"
      using assms(9,10) by (cases b) auto
    have e4: "match_items ?q (w3 @ b @ w4 @ str ''}'' @ rest)
        = Some (length w3 + (length b + (length w4 + 1)))"
      using match_star_lit [OF assms(5) assms(9,10) xb, of "[Space_star, Lit (str ''}'')]"]
      by (simp add: e3 del: match_items.simps)
    have e5: "match_items (Lit (a @ str '','') # ?q) ((a @ str '','') @ w3 @ b @ w4 @ str ''}'' @ rest)
        = Some (length (a @ str '','') + (length w3 + (length b + (length w4 + 1))))"
      by (simp only: match_lit_append e4) simp
    from e5 have "r = Some (length a + 1 + (length w3 + (length b + (length w4 + 1))))"
      unfolding r_def by (simp add: True str_def del: match_items.simps)
    with front show ?thesis
      by (simp add: True str_def del: match_items.simps)
  next
    case False
    then obtain x wc' where wc: "wc = x # wc'" by (cases wc) auto
    with assms(4) have "is_space x" by (simp add: spaces_def)
    then have "x \<noteq> 44" by (auto simp: is_space_def)
    then have "\<not> prefix (a @ str '','') ?X"
      by (simp add: wc str_def)
    then have "r = None" unfolding r_def by simp
    with front False show ?thesis by (simp del: match_items.simps)
  qed
qed

lemma shape1_match:
  assumes "spaces w1" "w1 \<noteq> []" "spaces w2" "spaces wc" "spaces w3" "spaces w4"
  shows "match_items pattern1 (shape1 w1 w2 wc w3 w4 @ rest)
    = (if wc = [] then Some (length (shape1 w1 w2 wc w3 w4)) else None)"
  using import_shape_match [OF assms, of "str ''useEffect''" "str ''useState''" rest]
  by (simp add: pattern1_def shape1_def str_def is_space_def del: match_items.simps)

lemma shape2_match:
  assumes "spaces w1" "w1 \<noteq> []" "spaces w2" "spaces wc" "spaces w3" "spaces w4"
  shows "match_items pattern2 (shape2 w1 w2 wc w3 w4 @ rest)
    = (if wc = [] then Some (length (shape2 w1 w2 wc w3 w4)) else None)"
  using import_shape_match [OF assms, of "str ''useState''" "str ''useEffect''" rest]
  by (simp add: pattern2_def shape2_def str_def is_space_def del: match_items.simps)

text \<open>A code point that is no white space and stands in no literal is in no match.\<close>

lemma match_items_avoids:
  assumes "\<not> is_space x" and "\<forall>l. Lit l \<in> set p \<longrightarrow> x \<notin> set l"
    and "match_items p s = Some n"
  shows "n \<le> length s \<and> (\<forall>k<n. s ! k \<noteq> x)"
  using assms
proof (induction p s arbitrary: n rule: match_items.induct)
  case (1 s)
  then show ?case by simp
next
  case (2 l p s)
  from 2(4) have pre: "prefix l s"
    and "\<exists>m. match_items p (drop (length l) s) = Some m \<and> n = length l + m"
    by (auto split: if_splits)
  then obtain m where m: "match_items p (drop (length l) s) = Some m" "n = length l + m"
    by blast
  from pre obtain t where s: "s = l @ t" by (auto simp: prefix_def)
  from 2(3) have xl: "x \<notin> set l" and xp: "\<forall>l. Lit l \<in> set p \<longrightarrow> x \<notin> set l" by auto
  from 2(1) [OF pre 2(2) xp m(1)] have ih: "m \<le> length t" "\<forall>k<m. t ! k \<noteq> x"
    by (simp_all add: s)
  show ?case
  proof (intro conjI allI impI)
    show "n \<le> length s" using ih m s by simp
  next
    fix k assume "k < n"
    show "s ! k \<noteq> x"
    proof (cases "k < length l")
      case True
      then have "s ! k \<in> set l" by (simp add: s nth_append)
      with xl show ?thesis by auto
    next
      case False
      with \<open>k < n\<close> m have "k - length l < m" by simp
      with ih False show ?thesis by (simp add: s nth_append)
    qed
  qed
next
  case (3 p)
  then show ?case by simp
next
  case (4 p c s)
  from 4(5) have xp: "\<forall>l. Lit l \<in> set p \<longrightarrow> x \<notin> set l" by auto
  show ?case
  proof (cases "is_space c")
    case sp: True
    show ?thesis
    proof (cases "match_items (Space_star # p) s")
      case None
      with sp 4(6) have "match_items p (c # s) = Some n" by simp
      from 4(2) [OF sp None 4(4) xp this] show ?thesis .
    next
      case (Some n')
      with sp 4(6) have n: "n = Suc n'" by simp
      from 4(1) [OF sp 4(4) 4(5) Some] have ih: "n' \<le> length s" "\<forall>k<n'. s ! k \<noteq> x"
        by simp_all
      have "(c # s) ! k \<noteq> x" if "k < n" for k
      proof (cases k)
        case 0
        with sp 4(4) show ?thesis by auto
      next
        case (Suc j)
        with that n ih show ?thesis by simp
      qed
      with ih n show ?thesis by simp
    qed
  next
    case False
    with 4(6) have "match_items p (c # s) = Some n" by simp
    from 4(3) [OF False 4(4) xp this] show ?thesis .
  qed
next
  case (5 p)
  then show ?case by simp
next
  case (6 p c s)
  from 6(4) have sp: "is_space c" and "\<exists>n'. match_items (Space_star # p) s = Some n' \<and> n = Suc n'"
    by (auto split: if_splits)
  then obtain n' where n': "match_items (Space_star # p) s = Some n'" "n = Suc n'" by blast
  from 6(3) have xp: "\<forall>l. Lit l \<in> set (Space_star # p) \<longrightarrow> x \<notin> set l" by auto
  from 6(1) [OF sp 6(2) xp n'(1)] have ih: "n' \<le> length s" "\<forall>k<n'. s ! k \<noteq> x"
    by simp_all
  have "(c # s) ! k \<noteq> x" if "k < n" for k
  proof (cases k)
    case 0
    with sp 6(2) show ?thesis by auto
  next
    case (Suc j)
    with that n' ih show ?thesis by simp
  qed
  with ih n' show ?case by simp
qed


lemma match_pattern_avoids_i:
  assumes "p = pattern1 \<or> p = pattern2" and "match_items p s = Some n"
  shows "0 < n \<and> n \<le> length s \<and> (\<forall>k. 0 < k \<and> k < n \<longrightarrow> s ! k \<noteq> 105)"
proof -
  obtain q where p: "p = Lit (str ''import'') # q"
    and q: "\<forall>l. Lit l \<in> set q \<longrightarrow> 105 \<notin> set l"
    using assms(1) by (auto simp: pattern1_def pattern2_def str_def)
  have len: "length (str ''import'') = 6" by (simp add: str_def)
  from assms(2) have pre: "prefix (str ''import'') s"
    and "\<exists>m. match_items q (drop (length (str ''import'')) s) = Some m
      \<and> n = length (str ''import'') + m"
    by (auto simp: p split: if_splits)
  then obtain m where m: "match_items q (drop 6 s) = Some m" and n: "n = 6 + m"
    unfolding len by blast
  from pre obtain t where s: "s = str ''import'' @ t" by (auto simp: prefix_def)
  have t: "drop 6 s = t" using len by (simp add: s)
  have sp: "\<not> is_space 105" by (simp add: is_space_def)
  from match_items_avoids [OF sp q m] have ih: "m \<le> length t" "\<forall>k<m. t ! k \<noteq> 105"
    by (simp_all add: t)
  have "s ! k \<noteq> 105" if "0 < k" and "k < n" for k
  proof (cases "k < 6")
    case True
    with that(1) have "k = 1 \<or> k = 2 \<or> k = 3 \<or> k = 4 \<or> k = 5" by arith
    then show ?thesis by (auto simp: s str_def)
  next
    case False
    with that n have "k - 6 < m" by simp
    with ih have "t ! (k - 6) \<noteq> 105" by simp
    moreover have "s ! k = t ! (k - 6)"
      using False len by (simp add: s nth_append)
    ultimately show ?thesis by simp
  qed
  moreover have "n \<le> length s" using ih n len by (simp add: s)
  ultimately show ?thesis using n by simp
qed

text \<open>
  Behind any text \<open>pre\<close>, a text that starts with the letter \<open>i\<close> is substituted as it
  would be alone: no match that starts in \<open>pre\<close> reaches into it.
\<close>

lemma re_sub_before_i_pieces:
  assumes p: "p = pattern1 \<or> p = pattern2" and s: "s \<noteq> []" "hd s = 105"
  shows "\<exists>ps. ps \<noteq> [] \<and> concat ps = pre
    \<and> re_sub p (pre @ s) = py_join inserted ps @ re_sub p s"
proof (induction "length pre" arbitrary: pre rule: less_induct)
  case less
  show ?case
  proof (cases pre)
    case Nil
    have "[[]] \<noteq> [] \<and> concat [[]] = pre
      \<and> re_sub p (pre @ s) = py_join inserted [[]] @ re_sub p s"
      by (simp add: Nil)
    then show ?thesis by blast
  next
    case (Cons c pre1)
    show ?thesis
    proof (cases "\<exists>n. match_items p (c # pre1 @ s) = Some (Suc n)")
      case True
      then obtain n where m: "match_items p (c # pre1 @ s) = Some (Suc n)" by blast
      from match_pattern_avoids_i [OF p m]
      have av: "\<forall>k. 0 < k \<and> k < Suc n \<longrightarrow> (c # pre1 @ s) ! k \<noteq> 105" by simp
      have le: "n \<le> length pre1"
      proof (rule ccontr)
        assume "\<not> n \<le> length pre1"
        then have "0 < Suc (length pre1) \<and> Suc (length pre1) < Suc n" by simp
        with av have "(c # pre1 @ s) ! Suc (length pre1) \<noteq> 105" by blast
        moreover have "(c # pre1 @ s) ! Suc (length pre1) = hd s"
          using s(1) by (simp add: nth_append hd_conv_nth)
        ultimately show False using s(2) by simp
      qed
      have "length (drop n pre1) < length pre" using Cons by simp
      from less [OF this] obtain ps where
        ih: "ps \<noteq> []" "concat ps = drop n pre1"
          "re_sub p (drop n pre1 @ s) = py_join inserted ps @ re_sub p s"
        by blast
      have "concat ((c # take n pre1) # ps) = pre"
        using ih(2) by (simp add: Cons)
      moreover have "re_sub p (pre @ s) = py_join inserted ((c # take n pre1) # ps) @ re_sub p s"
        using m le ih by (simp add: Cons py_join_Cons)
      ultimately show ?thesis by blast
    next
      case False
      then have r: "re_sub p (pre @ s) = c # re_sub p (pre1 @ s)"
        by (auto simp: Cons split: option.splits nat.splits)
      have "length pre1 < length pre" using Cons by simp
      from less [OF this] obtain ps where
        ih: "ps \<noteq> []" "concat ps = pre1"
          "re_sub p (pre1 @ s) = py_join inserted ps @ re_sub p s"
        by blast
      have "concat ((c # hd ps) # tl ps) = pre"
        using ih concat_extend_first [of ps c] by (simp add: Cons)
      moreover have "re_sub p (pre @ s) = py_join inserted ((c # hd ps) # tl ps) @ re_sub p s"
        using r ih py_join_extend_first [of ps inserted c] by simp
      ultimately show ?thesis by blast
    qed
  qed
qed

lemma re_sub_at_match:
  assumes "match_items p (m @ rest) = Some (length m)" and "m \<noteq> []"
  shows "re_sub p (m @ rest) = m @ inserted @ re_sub p rest"
proof -
  from assms(2) obtain c m' where m: "m = c # m'" by (cases m) auto
  with assms(1) show ?thesis by simp
qed

lemma shape_starts_with_i:
  "shape1 w1 w2 wc w3 w4 @ rest \<noteq> []" "hd (shape1 w1 w2 wc w3 w4 @ rest) = 105"
  "shape2 w1 w2 wc w3 w4 @ rest \<noteq> []" "hd (shape2 w1 w2 wc w3 w4 @ rest) = 105"
  by (simp_all add: shape1_def shape2_def str_def)

lemma shape_not_empty: "shape1 w1 w2 wc w3 w4 \<noteq> []" "shape2 w1 w2 wc w3 w4 \<noteq> []"
  by (simp_all add: shape1_def shape2_def str_def)

section \<open>Line endings\<close>





section \<open>Examples, evaluated\<close>

lemma ex_commented_present: "py_in (str ''useCallback'') ex_commented"
  by (simp add: ex_commented_def str_def)

lemma import1_changes:
  "add_import (str ''import { useEffect, useState } from \"react\";'') =
     str ''import { useEffect, useState }, useCallback} from \"react\";''"
  by (simp add: add_import_def str_def pattern1_def pattern2_def inserted_def is_space_def)

lemma import2_changes:
  "add_import (str ''import { useState, useEffect } from \"react\";'') =
     str ''import { useState, useEffect }, useCallback} from \"react\";''"
  by (simp add: add_import_def str_def pattern1_def pattern2_def inserted_def is_space_def)

lemma import1_differs:
  "str ''import { useEffect, useState }, useCallback} from \"react\";'' \<noteq>
   str ''import { useEffect, useState } from \"react\";''"
  by (simp add: str_def)

lemma import2_differs:
  "str ''import { useState, useEffect }, useCallback} from \"react\";'' \<noteq>
   str ''import { useState, useEffect } from \"react\";''"
  by (simp add: str_def)

lemma ex_no_shape:
  "\<not> re_search pattern1 (str ''import React from \"react\";'')"
  "\<not> re_search pattern2 (str ''import React from \"react\";'')"
  by (simp_all add: str_def pattern1_def pattern2_def is_space_def)


lemma ex_variants_all_patched: "add_import ex_variants = ex_variants_patched"
  by (simp add: add_import_def ex_variants_def ex_variants_patched_def str_def pattern1_def
      pattern2_def inserted_def is_space_def)





section \<open>The claims\<close>

text \<open>
  C1. A writable file whose whole content is \<open>import { useEffect, useState } from "react";\<close>
  is rewritten to \<open>import { useEffect, useState }, useCallback} from "react";\<close> and the
  program exits with status 0; likewise \<open>import { useState, useEffect } from "react";\<close>
  becomes \<open>import { useState, useEffect }, useCallback} from "react";\<close>, with status 0.
\<close>

theorem exact_insertion:
  assumes "writable w p"
  shows "(files w p = Some (str ''import { useEffect, useState } from \"react\";'') \<longrightarrow>
      main (prog # p # rest) w =
        (Exit 0,
         w\<lparr>files := (files w)(p \<mapsto> str ''import { useEffect, useState }, useCallback} from \"react\";''),
           stdout := stdout w @
             [str ''File: '' @ p, str ''  '' @ [check_mark] @ str '' Fixed imports''],
           ops := ops w @ [Open_read p, Open_write p,
             Write p (str ''import { useEffect, useState }, useCallback} from \"react\";'')]\<rparr>))
    \<and> (files w p = Some (str ''import { useState, useEffect } from \"react\";'') \<longrightarrow>
      main (prog # p # rest) w =
        (Exit 0,
         w\<lparr>files := (files w)(p \<mapsto> str ''import { useState, useEffect }, useCallback} from \"react\";''),
           stdout := stdout w @
             [str ''File: '' @ p, str ''  '' @ [check_mark] @ str '' Fixed imports''],
           ops := ops w @ [Open_read p, Open_write p,
             Write p (str ''import { useState, useEffect }, useCallback} from \"react\";'')]\<rparr>))"
proof (intro conjI impI)
  assume f: "files w p = Some (str ''import { useEffect, useState } from \"react\";'')"
  show "main (prog # p # rest) w =
        (Exit 0,
         w\<lparr>files := (files w)(p \<mapsto> str ''import { useEffect, useState }, useCallback} from \"react\";''),
           stdout := stdout w @
             [str ''File: '' @ p, str ''  '' @ [check_mark] @ str '' Fixed imports''],
           ops := ops w @ [Open_read p, Open_write p,
             Write p (str ''import { useEffect, useState }, useCallback} from \"react\";'')]\<rparr>)"
    using main_changed [OF f _ assms, of prog rest] import1_differs
    by (simp only: import1_changes) simp
next
  assume f: "files w p = Some (str ''import { useState, useEffect } from \"react\";'')"
  show "main (prog # p # rest) w =
        (Exit 0,
         w\<lparr>files := (files w)(p \<mapsto> str ''import { useState, useEffect }, useCallback} from \"react\";''),
           stdout := stdout w @
             [str ''File: '' @ p, str ''  '' @ [check_mark] @ str '' Fixed imports''],
           ops := ops w @ [Open_read p, Open_write p,
             Write p (str ''import { useState, useEffect }, useCallback} from \"react\";'')]\<rparr>)"
    using main_changed [OF f _ assms, of prog rest] import2_differs
    by (simp only: import2_changes) simp
qed

theorem exact_insertion_witness:
  "writable (one_file ex_path (str ''import { useEffect, useState } from \"react\";'')) ex_path
   \<and> files (one_file ex_path (str ''import { useEffect, useState } from \"react\";'')) ex_path
       = Some (str ''import { useEffect, useState } from \"react\";'')
   \<and> fst (main [ex_prog, ex_path]
         (one_file ex_path (str ''import { useEffect, useState } from \"react\";''))) = Exit 0
   \<and> files (snd (main [ex_prog, ex_path]
         (one_file ex_path (str ''import { useEffect, useState } from \"react\";'')))) ex_path
       = Some (str ''import { useEffect, useState }, useCallback} from \"react\";'')
   \<and> writable (one_file ex_path (str ''import { useState, useEffect } from \"react\";'')) ex_path
   \<and> files (one_file ex_path (str ''import { useState, useEffect } from \"react\";'')) ex_path
       = Some (str ''import { useState, useEffect } from \"react\";'')
   \<and> fst (main [ex_prog, ex_path]
         (one_file ex_path (str ''import { useState, useEffect } from \"react\";''))) = Exit 0
   \<and> files (snd (main [ex_prog, ex_path]
         (one_file ex_path (str ''import { useState, useEffect } from \"react\";'')))) ex_path
       = Some (str ''import { useState, useEffect }, useCallback} from \"react\";'')"
proof -
  let ?w1 = "one_file ex_path (str ''import { useEffect, useState } from \"react\";'')"
  let ?w2 = "one_file ex_path (str ''import { useState, useEffect } from \"react\";'')"
  have a1: "writable ?w1 ex_path" and a2: "writable ?w2 ex_path"
    by (simp_all add: one_file_def)
  have f1: "files ?w1 ex_path = Some (str ''import { useEffect, useState } from \"react\";'')"
    and f2: "files ?w2 ex_path = Some (str ''import { useState, useEffect } from \"react\";'')"
    by (simp_all add: one_file_def)
  from exact_insertion [OF a1, of ex_prog "[]"] f1
  have r1: "main [ex_prog, ex_path] ?w1 =
        (Exit 0,
         ?w1\<lparr>files := (files ?w1)(ex_path \<mapsto> str ''import { useEffect, useState }, useCallback} from \"react\";''),
           stdout := stdout ?w1 @
             [str ''File: '' @ ex_path, str ''  '' @ [check_mark] @ str '' Fixed imports''],
           ops := ops ?w1 @ [Open_read ex_path, Open_write ex_path,
             Write ex_path (str ''import { useEffect, useState }, useCallback} from \"react\";'')]\<rparr>)"
    by blast
  from exact_insertion [OF a2, of ex_prog "[]"] f2
  have r2: "main [ex_prog, ex_path] ?w2 =
        (Exit 0,
         ?w2\<lparr>files := (files ?w2)(ex_path \<mapsto> str ''import { useState, useEffect }, useCallback} from \"react\";''),
           stdout := stdout ?w2 @
             [str ''File: '' @ ex_path, str ''  '' @ [check_mark] @ str '' Fixed imports''],
           ops := ops ?w2 @ [Open_read ex_path, Open_write ex_path,
             Write ex_path (str ''import { useState, useEffect }, useCallback} from \"react\";'')]\<rparr>)"
    by blast
  show ?thesis
    by (simp only: r1 r2 a1 a2 f1 f2) simp
qed

text \<open>
  C2. Patching is idempotent. On contents, \<open>add_import\<close> applied twice is \<open>add_import\<close>
  applied once. On runs, a second run with the same arguments leaves every file as the
  first run left it and ends with status 1; when the file can be read and written, the
  first run leaves the patched content in it and the second run reports no change, writes
  nothing and exits with status 1.
\<close>

theorem patch_idempotent:
  "add_import (add_import c) = add_import c
   \<and> files (snd (main argv (snd (main argv w)))) = files (snd (main argv w))
   \<and> exit_status (fst (main argv (snd (main argv w)))) = 1
   \<and> (\<forall>prog p rest. argv = prog # p # rest \<and> files w p = Some c \<and> writable w p \<longrightarrow>
        files (snd (main argv w)) p = Some (add_import c)
        \<and> main argv (snd (main argv w)) =
            (Exit 1, (snd (main argv w))
               \<lparr>stdout := stdout (snd (main argv w)) @
                  [str ''File: '' @ p, str ''  - No import changes needed''],
                ops := ops (snd (main argv w)) @ [Open_read p]\<rparr>))"
proof -
  have second: "files (snd (main argv (snd (main argv w)))) = files (snd (main argv w))
      \<and> exit_status (fst (main argv (snd (main argv w)))) = 1"
  proof (cases "length argv < 2")
    case True
    then show ?thesis by (simp add: main_no_argument)
  next
    case False
    then obtain prog p rest where argv: "argv = prog # p # rest"
      by (cases argv; cases "tl argv") auto
    show ?thesis
    proof (cases "files w p")
      case None
      then show ?thesis by (simp add: argv main_unreadable)
    next
      case (Some d)
      show ?thesis
      proof (cases "add_import d = d")
        case True
        with Some show ?thesis by (simp add: argv main_unchanged)
      next
        case False
        show ?thesis
        proof (cases "writable w p")
          case True
          with Some False show ?thesis
            by (simp add: argv main_changed main_unchanged add_import_idem)
        next
          case nw: False
          show ?thesis
          proof (cases "opens w p")
            case True
            with Some False nw show ?thesis
              by (simp add: argv main_write_fails main_unchanged add_import_Nil)
          next
            case no: False
            with Some False nw show ?thesis by (simp add: argv main_open_fails)
          qed
        qed
      qed
    qed
  qed
  have third: "files (snd (main (prog # p # rest) w)) p = Some (add_import c)
        \<and> main (prog # p # rest) (snd (main (prog # p # rest) w)) =
            (Exit 1, (snd (main (prog # p # rest) w))
               \<lparr>stdout := stdout (snd (main (prog # p # rest) w)) @
                  [str ''File: '' @ p, str ''  - No import changes needed''],
                ops := ops (snd (main (prog # p # rest) w)) @ [Open_read p]\<rparr>)"
    if "files w p = Some c" and "writable w p" for prog p rest
  proof (cases "add_import c = c")
    case True
    with that show ?thesis by (simp add: main_unchanged)
  next
    case False
    with that show ?thesis
      by (simp add: main_changed main_unchanged add_import_idem)
  qed
  from second third show ?thesis
    by (simp add: add_import_idem)
qed

theorem patch_idempotent_witness:
  "files (one_file ex_path (str ''import { useEffect, useState } from \"react\";'')) ex_path
       = Some (str ''import { useEffect, useState } from \"react\";'')
   \<and> writable (one_file ex_path (str ''import { useEffect, useState } from \"react\";'')) ex_path
   \<and> files (snd (main [ex_prog, ex_path]
         (one_file ex_path (str ''import { useEffect, useState } from \"react\";'')))) ex_path
       = Some (str ''import { useEffect, useState }, useCallback} from \"react\";'')
   \<and> fst (main [ex_prog, ex_path] (snd (main [ex_prog, ex_path]
         (one_file ex_path (str ''import { useEffect, useState } from \"react\";''))))) = Exit 1
   \<and> files (snd (main [ex_prog, ex_path] (snd (main [ex_prog, ex_path]
         (one_file ex_path (str ''import { useEffect, useState } from \"react\";'')))))) ex_path
       = Some (str ''import { useEffect, useState }, useCallback} from \"react\";'')"
proof -
  let ?c = "str ''import { useEffect, useState } from \"react\";''"
  let ?w = "one_file ex_path ?c"
  let ?w1 = "snd (main [ex_prog, ex_path] ?w)"
  have f: "files ?w ex_path = Some ?c" and a: "writable ?w ex_path"
    by (simp_all add: one_file_def)
  from patch_idempotent [of ?c "[ex_prog, ex_path]" ?w] f a
  have r: "files ?w1 ex_path = Some (add_import ?c)"
    and s: "fst (main [ex_prog, ex_path] ?w1) = Exit 1"
    and t: "files (snd (main [ex_prog, ex_path] ?w1)) = files ?w1"
    by simp_all
  from r have r': "files ?w1 ex_path
      = Some (str ''import { useEffect, useState }, useCallback} from \"react\";'')"
    by (simp only: import1_changes)
  from f a r' s t show ?thesis by simp
qed

text \<open>
  C3. When the content holds the text \<open>useCallback\<close> anywhere, nothing is inserted: the
  content stays as it is, the file is not written and the program exits with status 1.
  The example has the text in a comment, above an import of the first shape.
\<close>

theorem present_short_circuit:
  assumes "py_in (str ''useCallback'') c" and "files w p = Some c"
  shows "add_import c = c
    \<and> main (prog # p # rest) w =
       (Exit 1, w\<lparr>stdout := stdout w @ [str ''File: '' @ p, str ''  - No import changes needed''],
                 ops := ops w @ [Open_read p]\<rparr>)"
  using assms by (simp add: add_import_present main_unchanged)

theorem present_short_circuit_witness:
  "py_in (str ''useCallback'') ex_commented
   \<and> files (one_file ex_path ex_commented) ex_path = Some ex_commented
   \<and> fst (main [ex_prog, ex_path] (one_file ex_path ex_commented)) = Exit 1
   \<and> files (snd (main [ex_prog, ex_path] (one_file ex_path ex_commented)))
       = files (one_file ex_path ex_commented)"
proof -
  have f: "files (one_file ex_path ex_commented) ex_path = Some ex_commented"
    by (simp add: one_file_def)
  from present_short_circuit [OF ex_commented_present f, of ex_prog "[]"]
  show ?thesis using ex_commented_present f by simp
qed

text \<open>
  C4. In every run the file operations are those done before followed by new ones. Among
  the new ones, those that can change a file are none at all, and then every file is as
  it was; or, when the patched content differs from the content read, one opening of the
  file for writing, followed by at most one write, which puts the patched content into
  the file. When the patched content equals the content read, the file is neither opened
  for writing nor written, and every file is as it was.
\<close>

theorem written_at_most_once:
  "\<exists>new. ops (snd (main argv w)) = ops w @ new
     \<and> (filter modifies new = [] \<and> files (snd (main argv w)) = files w
        \<or> (\<exists>c. 2 \<le> length argv \<and> files w (argv ! 1) = Some c \<and> add_import c \<noteq> c
             \<and> (filter modifies new = [Open_write (argv ! 1), Write (argv ! 1) (add_import c)]
                  \<and> files (snd (main argv w)) = (files w)(argv ! 1 \<mapsto> add_import c)
                \<or> filter modifies new = [Open_write (argv ! 1)]
                  \<and> (files (snd (main argv w)) = files w
                     \<or> files (snd (main argv w)) = (files w)(argv ! 1 \<mapsto> [])))))
     \<and> length (filter is_write new) \<le> 1
     \<and> (\<forall>c. 2 \<le> length argv \<and> files w (argv ! 1) = Some c \<and> add_import c = c \<longrightarrow>
           filter modifies new = [] \<and> files (snd (main argv w)) = files w)"
proof (cases "length argv < 2")
  case True
  then show ?thesis by (simp add: main_no_argument)
next
  case False
  then obtain prog p rest where argv: "argv = prog # p # rest"
    by (cases argv; cases "tl argv") auto
  show ?thesis
  proof (cases "files w p")
    case None
    then show ?thesis by (simp add: argv main_unreadable)
  next
    case (Some c)
    show ?thesis
    proof (cases "add_import c = c")
      case True
      with Some show ?thesis by (simp add: argv main_unchanged)
    next
      case False
      show ?thesis
      proof (cases "writable w p")
        case True
        with Some False show ?thesis by (simp add: argv main_changed)
      next
        case nw: False
        show ?thesis
        proof (cases "opens w p")
          case True
          with Some False nw show ?thesis by (simp add: argv main_write_fails)
        next
          case no: False
          with Some False nw show ?thesis by (simp add: argv main_open_fails)
        qed
      qed
    qed
  qed
qed

theorem written_at_most_once_witness:
  "files (one_file ex_path ex_commented) ex_path = Some ex_commented
   \<and> add_import ex_commented = ex_commented
   \<and> (\<exists>new. ops (snd (main [ex_prog, ex_path] (one_file ex_path ex_commented)))
         = ops (one_file ex_path ex_commented) @ new \<and> filter modifies new = [])
   \<and> files (snd (main [ex_prog, ex_path] (one_file ex_path ex_commented)))
       = files (one_file ex_path ex_commented)"
proof -
  have f: "files (one_file ex_path ex_commented) ex_path = Some ex_commented"
    by (simp add: one_file_def)
  have d: "add_import ex_commented = ex_commented"
    using ex_commented_present by (rule add_import_present)
  from written_at_most_once [of "[ex_prog, ex_path]" "one_file ex_path ex_commented"]
  obtain new where
    n1: "ops (snd (main [ex_prog, ex_path] (one_file ex_path ex_commented)))
         = ops (one_file ex_path ex_commented) @ new"
    and n2: "\<forall>c. 2 \<le> length [ex_prog, ex_path]
         \<and> files (one_file ex_path ex_commented) ([ex_prog, ex_path] ! 1) = Some c
         \<and> add_import c = c \<longrightarrow>
           filter modifies new = []
           \<and> files (snd (main [ex_prog, ex_path] (one_file ex_path ex_commented)))
               = files (one_file ex_path ex_commented)"
    by blast
  from n2 f d have "filter modifies new = []
      \<and> files (snd (main [ex_prog, ex_path] (one_file ex_path ex_commented)))
          = files (one_file ex_path ex_commented)"
    by simp
  with n1 f d show ?thesis by blast
qed

text \<open>
  C5, as amended. In every run the exit status is 0 if and only if there is a file
  argument, the file is read, the patched content differs from the content read and the
  file is written; that is, if and only if the patched content has been put into the
  file. In every other run the status is 1: with no file argument, with a file that
  cannot be read, with a content that the patch leaves unchanged, and with a changed
  content that cannot be written.
\<close>

theorem exit_status_zero_iff_patched:
  "exit_status (fst (main argv w)) =
     (if 2 \<le> length argv
         \<and> (\<exists>c. files w (argv ! 1) = Some c \<and> add_import c \<noteq> c) \<and> writable w (argv ! 1)
      then 0 else 1)
   \<and> (exit_status (fst (main argv w)) = 0 \<longleftrightarrow>
        (\<exists>c. 2 \<le> length argv \<and> files w (argv ! 1) = Some c \<and> add_import c \<noteq> c
           \<and> ops (snd (main argv w)) =
               ops w @ [Open_read (argv ! 1), Open_write (argv ! 1),
                        Write (argv ! 1) (add_import c)]
           \<and> files (snd (main argv w)) = (files w)(argv ! 1 \<mapsto> add_import c)))
   \<and> (\<forall>c. 2 \<le> length argv \<and> files w (argv ! 1) = Some c \<and> add_import c = c \<longrightarrow>
        fst (main argv w) = Exit 1)"
proof (cases "length argv < 2")
  case True
  then show ?thesis by (simp add: main_no_argument)
next
  case False
  then obtain prog p rest where argv: "argv = prog # p # rest"
    by (cases argv; cases "tl argv") auto
  show ?thesis
  proof (cases "files w p")
    case None
    then show ?thesis by (simp add: argv main_unreadable)
  next
    case (Some c)
    show ?thesis
    proof (cases "add_import c = c")
      case True
      with Some show ?thesis by (simp add: argv main_unchanged)
    next
      case False
      show ?thesis
      proof (cases "writable w p")
        case True
        with Some False show ?thesis by (simp add: argv main_changed)
      next
        case nw: False
        show ?thesis
        proof (cases "opens w p")
          case True
          with Some False nw show ?thesis by (simp add: argv main_write_fails)
        next
          case no: False
          with Some False nw show ?thesis by (simp add: argv main_open_fails)
        qed
      qed
    qed
  qed
qed

theorem exit_status_zero_iff_patched_witness:
  "files (one_file ex_path ex_commented) ex_path = Some ex_commented
   \<and> add_import ex_commented = ex_commented
   \<and> fst (main [ex_prog, ex_path] (one_file ex_path ex_commented)) = Exit 1
   \<and> exit_status (fst (main [ex_prog, ex_path]
         (one_file ex_path (str ''import { useEffect, useState } from \"react\";'')))) = 0"
proof -
  let ?c = "str ''import { useEffect, useState } from \"react\";''"
  have f1: "files (one_file ex_path ?c) ex_path = Some ?c"
    and w1: "writable (one_file ex_path ?c) ex_path"
    and f2: "files (one_file ex_path ex_commented) ex_path = Some ex_commented"
    by (simp_all add: one_file_def)
  have d1: "add_import ?c \<noteq> ?c"
    using import1_differs by (simp only: import1_changes) simp
  have d2: "add_import ex_commented = ex_commented"
    using ex_commented_present by (rule add_import_present)
  from exit_status_zero_iff_patched [of "[ex_prog, ex_path]" "one_file ex_path ex_commented"]
    f2 d2
  have r2: "fst (main [ex_prog, ex_path] (one_file ex_path ex_commented)) = Exit 1"
    by simp
  from exit_status_zero_iff_patched [of "[ex_prog, ex_path]" "one_file ex_path ?c"] f1 w1 d1
  have r1: "exit_status (fst (main [ex_prog, ex_path] (one_file ex_path ?c))) = 0"
    by simp
  from f2 d2 r2 r1 show ?thesis by blast
qed

text \<open>
  C5 as stated fails for a file that can be read and not written: the patched content
  differs from the content read, and the status is 1.
\<close>

theorem read_only_file_counterexample:
  "files (read_only_file ex_path (str ''import { useEffect, useState } from \"react\";'')) ex_path
     = Some (str ''import { useEffect, useState } from \"react\";'')
   \<and> add_import (str ''import { useEffect, useState } from \"react\";'')
       \<noteq> str ''import { useEffect, useState } from \"react\";''
   \<and> main [ex_prog, ex_path]
         (read_only_file ex_path (str ''import { useEffect, useState } from \"react\";''))
     = (Uncaught Write_failure,
        (read_only_file ex_path (str ''import { useEffect, useState } from \"react\";''))
          \<lparr>stdout := [str ''File: '' @ ex_path],
           ops := [Open_read ex_path, Open_write ex_path]\<rparr>)
   \<and> exit_status (fst (main [ex_prog, ex_path]
         (read_only_file ex_path (str ''import { useEffect, useState } from \"react\";'')))) = 1"
proof -
  let ?c = "str ''import { useEffect, useState } from \"react\";''"
  have f: "files (read_only_file ex_path ?c) ex_path = Some ?c"
    and nw: "\<not> writable (read_only_file ex_path ?c) ex_path"
    and no: "\<not> opens (read_only_file ex_path ?c) ex_path"
    and e: "stdout (read_only_file ex_path ?c) = []" "ops (read_only_file ex_path ?c) = []"
    by (simp_all add: read_only_file_def)
  have d: "add_import ?c \<noteq> ?c"
    using import1_differs by (simp only: import1_changes) simp
  from main_open_fails [OF f d nw no, of ex_prog "[]"] e
  have m: "main [ex_prog, ex_path] (read_only_file ex_path ?c)
     = (Uncaught Write_failure,
        (read_only_file ex_path ?c)
          \<lparr>stdout := [str ''File: '' @ ex_path],
           ops := [Open_read ex_path, Open_write ex_path]\<rparr>)"
    by simp
  from f d m show ?thesis by simp
qed

text \<open>
  C6. When neither expression matches anywhere in the content, whether or not the content
  holds \<open>useCallback\<close>, the patched content is the content read, the file is not
  written, the program prints that no import changes are needed and exits with status 1.
\<close>

theorem no_shape_no_change:
  assumes "\<not> re_search pattern1 c" and "\<not> re_search pattern2 c" and "files w p = Some c"
  shows "add_import c = c
    \<and> main (prog # p # rest) w =
       (Exit 1, w\<lparr>stdout := stdout w @ [str ''File: '' @ p, str ''  - No import changes needed''],
                 ops := ops w @ [Open_read p]\<rparr>)"
proof -
  have "add_import c = c"
    using assms(1,2) by (simp add: add_import_def re_sub_no_match)
  with assms(3) show ?thesis by (simp add: main_unchanged)
qed

theorem no_shape_no_change_witness:
  "\<not> re_search pattern1 (str ''import React from \"react\";'')
   \<and> \<not> re_search pattern2 (str ''import React from \"react\";'')
   \<and> files (one_file ex_path (str ''import React from \"react\";'')) ex_path
       = Some (str ''import React from \"react\";'')
   \<and> main [ex_prog, ex_path] (one_file ex_path (str ''import React from \"react\";'')) =
       (Exit 1, (one_file ex_path (str ''import React from \"react\";''))
          \<lparr>stdout := [str ''File: '' @ ex_path, str ''  - No import changes needed''],
           ops := [Open_read ex_path]\<rparr>)"
proof -
  let ?c = "str ''import React from \"react\";''"
  have f: "files (one_file ex_path ?c) ex_path = Some ?c"
    by (simp add: one_file_def)
  have e: "stdout (one_file ex_path ?c) = []" "ops (one_file ex_path ?c) = []"
    by (simp_all add: one_file_def)
  from no_shape_no_change [OF ex_no_shape f, of ex_prog "[]"] e
  have "main [ex_prog, ex_path] (one_file ex_path ?c) =
       (Exit 1, (one_file ex_path ?c)
          \<lparr>stdout := [str ''File: '' @ ex_path, str ''  - No import changes needed''],
           ops := [Open_read ex_path]\<rparr>)"
    by simp
  with ex_no_shape f show ?thesis by blast
qed

text \<open>
  C7. Invoked with the program name only, the program prints the usage line to standard
  output and exits with status 1; no file operation is attempted and no file changes.
\<close>

theorem no_argument_usage:
  "main [prog] w = (Exit 1, w\<lparr>stdout := stdout w @ [str ''Usage: fix_react_hooks.py <file>'']\<rparr>)
   \<and> files (snd (main [prog] w)) = files w \<and> ops (snd (main [prog] w)) = ops w"
  by (simp add: main_no_argument)

text \<open>
  C8. When the file cannot be opened or read, the exception leaves the program uncaught:
  the run ends with a non-zero status after the single attempt to open the file, with
  nothing printed, nothing written and no file changed.
\<close>

theorem unreadable_file_uncaught:
  assumes "files w p = None"
  shows "main (prog # p # rest) w = (Uncaught Read_failure, w\<lparr>ops := ops w @ [Open_read p]\<rparr>)
    \<and> exit_status (fst (main (prog # p # rest) w)) \<noteq> 0
    \<and> files (snd (main (prog # p # rest) w)) = files w
    \<and> stdout (snd (main (prog # p # rest) w)) = stdout w"
  using assms by (simp add: main_unreadable)

theorem unreadable_file_uncaught_witness:
  "files no_file ex_path = None
   \<and> main [ex_prog, ex_path] no_file =
       (Uncaught Read_failure, no_file\<lparr>ops := [Open_read ex_path]\<rparr>)"
  using unreadable_file_uncaught [of no_file ex_path ex_prog "[]"]
  by (simp add: no_file_def)




text \<open>
  C10, as amended. Each expression accepts its import statement with any non-empty run of
  white space behind \<open>import\<close> and any run of white space, also none, behind the opening
  brace, behind the comma and before the closing brace; it accepts none between the first
  name and the comma. The substitution is global: wherever such a statement stands in the
  text, the inserted text is put behind it and the rest of the text is substituted in the
  same way. The example file has a compact import, an import over several lines and a
  second import of the first shape, and all three are patched.
\<close>

theorem flexible_global_match:
  assumes "spaces w1" "w1 \<noteq> []" "spaces w2" "spaces wc" "spaces w3" "spaces w4"
  shows "match_items pattern1 (shape1 w1 w2 wc w3 w4 @ rest)
      = (if wc = [] then Some (length (shape1 w1 w2 wc w3 w4)) else None)
    \<and> match_items pattern2 (shape2 w1 w2 wc w3 w4 @ rest)
      = (if wc = [] then Some (length (shape2 w1 w2 wc w3 w4)) else None)
    \<and> (\<exists>ps. ps \<noteq> [] \<and> concat ps = pre
         \<and> re_sub pattern1 (pre @ shape1 w1 w2 [] w3 w4 @ rest) =
             py_join inserted ps @ shape1 w1 w2 [] w3 w4 @ inserted @ re_sub pattern1 rest)
    \<and> (\<exists>ps. ps \<noteq> [] \<and> concat ps = pre
         \<and> re_sub pattern2 (pre @ shape2 w1 w2 [] w3 w4 @ rest) =
             py_join inserted ps @ shape2 w1 w2 [] w3 w4 @ inserted @ re_sub pattern2 rest)
    \<and> add_import ex_variants = ex_variants_patched"
proof -
  have e: "spaces []" by (simp add: spaces_def)
  have m1: "match_items pattern1 (shape1 w1 w2 wc w3 w4 @ rest)
      = (if wc = [] then Some (length (shape1 w1 w2 wc w3 w4)) else None)"
    using assms by (rule shape1_match)
  have m2: "match_items pattern2 (shape2 w1 w2 wc w3 w4 @ rest)
      = (if wc = [] then Some (length (shape2 w1 w2 wc w3 w4)) else None)"
    using assms by (rule shape2_match)
  have n1: "match_items pattern1 (shape1 w1 w2 [] w3 w4 @ rest)
      = Some (length (shape1 w1 w2 [] w3 w4))"
    using shape1_match [OF assms(1,2,3) e assms(5,6), of rest] by simp
  have n2: "match_items pattern2 (shape2 w1 w2 [] w3 w4 @ rest)
      = Some (length (shape2 w1 w2 [] w3 w4))"
    using shape2_match [OF assms(1,2,3) e assms(5,6), of rest] by simp
  have r1: "re_sub pattern1 (shape1 w1 w2 [] w3 w4 @ rest)
      = shape1 w1 w2 [] w3 w4 @ inserted @ re_sub pattern1 rest"
    using n1 shape_not_empty(1) by (rule re_sub_at_match)
  have r2: "re_sub pattern2 (shape2 w1 w2 [] w3 w4 @ rest)
      = shape2 w1 w2 [] w3 w4 @ inserted @ re_sub pattern2 rest"
    using n2 shape_not_empty(2) by (rule re_sub_at_match)
  have g1: "\<exists>ps. ps \<noteq> [] \<and> concat ps = pre
         \<and> re_sub pattern1 (pre @ shape1 w1 w2 [] w3 w4 @ rest) =
             py_join inserted ps @ shape1 w1 w2 [] w3 w4 @ inserted @ re_sub pattern1 rest"
    using re_sub_before_i_pieces [of pattern1 "shape1 w1 w2 [] w3 w4 @ rest" pre]
      shape_starts_with_i(1,2) [of w1 w2 "[]" w3 w4 rest]
    by (simp only: r1) simp
  have g2: "\<exists>ps. ps \<noteq> [] \<and> concat ps = pre
         \<and> re_sub pattern2 (pre @ shape2 w1 w2 [] w3 w4 @ rest) =
             py_join inserted ps @ shape2 w1 w2 [] w3 w4 @ inserted @ re_sub pattern2 rest"
    using re_sub_before_i_pieces [of pattern2 "shape2 w1 w2 [] w3 w4 @ rest" pre]
      shape_starts_with_i(3,4) [of w1 w2 "[]" w3 w4 rest]
    by (simp only: r2) simp
  from m1 m2 g1 g2 ex_variants_all_patched show ?thesis by blast
qed

theorem flexible_global_match_witness:
  "spaces (str '' '') \<and> str '' '' \<noteq> [] \<and> spaces (str ''\<newline>  '') \<and> spaces [] \<and> spaces (str ''\<newline>'')
   \<and> match_items pattern1 (str ''import {\<newline>  useEffect,\<newline>  useState\<newline>} from \"react\";'') = Some 34
   \<and> match_items pattern2 (str ''import {\<newline>  useState,\<newline>  useEffect\<newline>} from \"react\";'') = Some 34"
proof -
  have a: "spaces (str '' '')" "str '' '' \<noteq> []" "spaces (str ''\<newline>  '')" "spaces []"
    "spaces (str ''\<newline>'')"
    by (simp_all add: spaces_def str_def is_space_def)
  from flexible_global_match [OF a(1) a(2) a(3) a(4) a(3) a(5), of "str '' from \"react\";''" "[]"]
  have "match_items pattern1
      (shape1 (str '' '') (str ''\<newline>  '') [] (str ''\<newline>  '') (str ''\<newline>'') @ str '' from \"react\";'')
      = Some (length (shape1 (str '' '') (str ''\<newline>  '') [] (str ''\<newline>  '') (str ''\<newline>'')))"
    and "match_items pattern2
      (shape2 (str '' '') (str ''\<newline>  '') [] (str ''\<newline>  '') (str ''\<newline>'') @ str '' from \"react\";'')
      = Some (length (shape2 (str '' '') (str ''\<newline>  '') [] (str ''\<newline>  '') (str ''\<newline>'')))"
    by simp_all
  then have "match_items pattern1 (str ''import {\<newline>  useEffect,\<newline>  useState\<newline>} from \"react\";'') = Some 34"
    and "match_items pattern2 (str ''import {\<newline>  useState,\<newline>  useEffect\<newline>} from \"react\";'') = Some 34"
    by (simp_all add: shape1_def shape2_def str_def)
  with a show ?thesis by blast
qed

text \<open>
  C10 as stated fails where white space stands between the first name and the comma: with
  one space at each of the five places the expression does not match, and the file is
  left as it is.
\<close>

theorem space_before_comma_counterexample:
  "spaces (str '' '')
   \<and> shape1 (str '' '') (str '' '') (str '' '') (str '' '') (str '' '')
       = str ''import { useEffect , useState }''
   \<and> match_items pattern1 (str ''import { useEffect , useState } from \"react\";'') = None
   \<and> \<not> re_search pattern1 (str ''import { useEffect , useState } from \"react\";'')
   \<and> add_import (str ''import { useEffect , useState } from \"react\";'')
       = str ''import { useEffect , useState } from \"react\";''"
  by (simp add: spaces_def shape1_def add_import_def str_def pattern1_def pattern2_def
      inserted_def is_space_def)

end
